theory Spec2Isabelle
  imports Main "HOL-Library.Char_ord" "HOL-Library.List_Lexorder" "HOL-Library.Word"
begin

section \<open>Strings\<close>

text \<open>
  The text that the search reads (file names, stream ids and the search term) is kept as
  JavaScript has it, as a list of UTF-16 code units. \<open>codeUnits\<close> writes a string of
  Latin-1 characters, whose codes are their code points, as code units. The other strings
  of the program are only compared or handed to the platform, and are kept as
  \<^typ>\<open>string\<close>.

  \<open>String.prototype.includes\<close> (named \<open>includes_str\<close>) is the search for a contiguous
  occurrence. \<open>String.prototype.toLowerCase\<close> is a function of the platform (see
  \<open>platform\<close> below).
\<close>

type_synonym jstring = "16 word list"

definition codeUnits :: "string \<Rightarrow> jstring" where
  "codeUnits s = map (\<lambda>c. of_nat (of_char c)) s"

fun startsWith :: "jstring \<Rightarrow> jstring \<Rightarrow> bool" where
  "startsWith s [] = True"
| "startsWith [] (c # t) = False"
| "startsWith (d # s) (c # t) = (d = c \<and> startsWith s t)"

fun includes_str :: "jstring \<Rightarrow> jstring \<Rightarrow> bool" where
  "includes_str [] t = (t = [])"
| "includes_str (d # s) t = (startsWith (d # s) t \<or> includes_str s t)"

section \<open>The gallery (VideoGallery)\<close>

text \<open>
  \<open>interface SavedVideo\<close>. The field \<open>id\<close> is named \<open>id_v\<close> here; \<open>duration\<close> is a
  JavaScript number, modelled as an integer.
\<close>

record SavedVideo =
  id_v :: string
  filename :: jstring
  url :: string
  timestamp :: string
  duration :: int
  streamId :: jstring

datatype sort_key = SortDate | SortDuration | SortName

datatype time_filter = FilterAll | FilterToday | FilterWeek | FilterMonth

text \<open>
  The platform's string, clock and date functions are parameters of the model:
  \<^item> \<open>toLowerCase\<close> is \<open>String.prototype.toLowerCase\<close>, the lower-casing of the Unicode
    standard, on a whole string (it may change the length of the string);
  \<^item> \<open>parseDate\<close> is \<open>new Date(string).getTime()\<close>, in milliseconds since the epoch, with
    \<open>None\<close> for an Invalid Date (whose time value is NaN);
  \<^item> \<open>tz\<close> is the local time zone offset in milliseconds at a given instant;
  \<^item> \<open>localeCompare\<close> is \<open>String.prototype.localeCompare\<close>.
\<close>

record platform =
  toLowerCase :: "jstring \<Rightarrow> jstring"
  parseDate :: "string \<Rightarrow> int option"
  tz :: "int \<Rightarrow> int"
  localeCompare :: "jstring \<Rightarrow> jstring \<Rightarrow> int"

definition msPerDay :: int where
  "msPerDay = 24 * 60 * 60 * 1000"

text \<open>
  \<open>Date.prototype.toDateString\<close> prints the weekday, month, day and year of the local
  time: the local calendar day, represented by its day number. An Invalid Date prints
  \<open>Invalid Date\<close>, which no valid date prints: \<open>None\<close>.
\<close>

definition localDay :: "platform \<Rightarrow> int \<Rightarrow> int" where
  "localDay p t = (t + tz p t) div msPerDay"

definition toDateString :: "platform \<Rightarrow> int option \<Rightarrow> int option" where
  "toDateString p d = map_option (localDay p) d"

text \<open>\<open>videoDate >= weekAgo\<close>: a comparison with NaN is false.\<close>

definition dateGe :: "int option \<Rightarrow> int \<Rightarrow> bool" where
  "dateGe d t = (case d of None \<Rightarrow> False | Some v \<Rightarrow> v \<ge> t)"

definition matchesSearch :: "platform \<Rightarrow> jstring \<Rightarrow> SavedVideo \<Rightarrow> bool" where
  "matchesSearch p term video =
     (includes_str (toLowerCase p (filename video)) (toLowerCase p term) \<or>
      includes_str (toLowerCase p (streamId video)) (toLowerCase p term))"

text \<open>
  The callback of \<open>savedVideos.filter\<close>; \<open>now\<close> is the time value of \<open>new Date()\<close>,
  \<open>term\<close>, \<open>fb\<close> and \<open>sb\<close> are the state variables \<open>searchTerm\<close>, \<open>filterBy\<close> and
  \<open>sortBy\<close>.
\<close>

definition filterVideo :: "platform \<Rightarrow> int \<Rightarrow> jstring \<Rightarrow> time_filter \<Rightarrow> SavedVideo \<Rightarrow> bool" where
  "filterVideo p now term fb video =
     (if \<not> matchesSearch p term video then False
      else
        let videoDate = parseDate p (timestamp video) in
        (case fb of
           FilterToday \<Rightarrow> toDateString p videoDate = toDateString p (Some now)
         | FilterWeek \<Rightarrow> dateGe videoDate (now - 7 * 24 * 60 * 60 * 1000)
         | FilterMonth \<Rightarrow> dateGe videoDate (now - 30 * 24 * 60 * 60 * 1000)
         | FilterAll \<Rightarrow> True))"

text \<open>
  The comparator of \<open>.sort\<close>. A difference with NaN is NaN, which \<open>sort\<close> reads as 0.
\<close>

definition compareVideos :: "platform \<Rightarrow> sort_key \<Rightarrow> SavedVideo \<Rightarrow> SavedVideo \<Rightarrow> int" where
  "compareVideos p sb a b =
     (case sb of
        SortDate \<Rightarrow>
          (case (parseDate p (timestamp b), parseDate p (timestamp a)) of
             (Some tb, Some ta) \<Rightarrow> tb - ta
           | _ \<Rightarrow> 0)
      | SortDuration \<Rightarrow> duration b - duration a
      | SortName \<Rightarrow> localeCompare p (filename a) (filename b))"

text \<open>
  \<open>Array.prototype.sort\<close> is stable (ECMAScript 2019): elements that compare equal keep
  their order. With a comparator that is a consistent order, as the one on durations is,
  this fixes the result; the model inserts each element before the first element that the
  comparator does not put before it.
\<close>

fun insertBy :: "('a \<Rightarrow> 'a \<Rightarrow> int) \<Rightarrow> 'a \<Rightarrow> 'a list \<Rightarrow> 'a list" where
  "insertBy cmp x [] = [x]"
| "insertBy cmp x (y # ys) = (if cmp x y \<le> 0 then x # y # ys else y # insertBy cmp x ys)"

definition sortBy_cmp :: "('a \<Rightarrow> 'a \<Rightarrow> int) \<Rightarrow> 'a list \<Rightarrow> 'a list" where
  "sortBy_cmp cmp xs = foldr (insertBy cmp) xs []"

text \<open>
  The order that the specification asks of the sort by duration: longer first, and among
  equal durations the smaller \<open>id\<close> first (strings compared character by character).
\<close>

definition durationOrder :: "SavedVideo \<Rightarrow> SavedVideo \<Rightarrow> bool" where
  "durationOrder a b = (duration b < duration a \<or> (duration b = duration a \<and> id_v a \<le> id_v b))"

definition filteredVideos :: "platform \<Rightarrow> int \<Rightarrow> jstring \<Rightarrow> time_filter \<Rightarrow> SavedVideo list \<Rightarrow> SavedVideo list" where
  "filteredVideos p now term fb videos = filter (filterVideo p now term fb) videos"

definition filteredAndSortedVideos ::
  "platform \<Rightarrow> int \<Rightarrow> jstring \<Rightarrow> time_filter \<Rightarrow> sort_key \<Rightarrow> SavedVideo list \<Rightarrow> SavedVideo list" where
  "filteredAndSortedVideos p now term fb sb videos =
     sortBy_cmp (compareVideos p sb) (filteredVideos p now term fb videos)"

section \<open>The browser's store\<close>

text \<open>
  \<open>localStorage\<close> keeps JSON text under string keys, and the program uses two keys:
  \<open>'savedVideos'\<close> (here \<open>item_savedVideos\<close>), which the gallery reads and writes, and
  \<open>'streamRecordings'\<close> (here \<open>item_streamRecordings\<close>), which the broadcaster reads and
  writes. The model keeps, for each key, the value that \<open>JSON.parse\<close> reads back from
  what \<open>JSON.stringify\<close> wrote (\<open>None\<close>: the key is absent); \<open>setItem\<close> is taken to
  succeed.
  The gallery gives its records the interface \<open>SavedVideo\<close>; the broadcaster pushes an
  object literal of no declared type, kept as its list of fields.
\<close>

datatype js_value = JNumber int | JString string

type_synonym js_object = "(string \<times> js_value) list"

record local_storage =
  item_savedVideos :: "SavedVideo list option"
  item_streamRecordings :: "js_object list option"

record browser =
  localStorage :: local_storage

text \<open>\<open>JSON.parse(localStorage.getItem(key) || '[]')\<close> for the two keys.\<close>

definition storedVideos :: "local_storage \<Rightarrow> SavedVideo list" where
  "storedVideos ls = (case item_savedVideos ls of None \<Rightarrow> [] | Some videos \<Rightarrow> videos)"

definition storedRecordings :: "local_storage \<Rightarrow> js_object list" where
  "storedRecordings ls = (case item_streamRecordings ls of None \<Rightarrow> [] | Some recordings \<Rightarrow> recordings)"

subsection \<open>The state of the gallery and its handlers\<close>

record gallery = browser +
  savedVideos :: "SavedVideo list"
  selectedVideo :: "SavedVideo option"
  searchTerm :: jstring
  sortBy :: sort_key
  filterBy :: time_filter

definition loadSavedVideos :: "gallery \<Rightarrow> gallery" where
  "loadSavedVideos g = g\<lparr>savedVideos := storedVideos (localStorage g)\<rparr>"

text \<open>The component as first rendered, and after the effect that runs once on mount.\<close>

definition initialGallery :: "local_storage \<Rightarrow> gallery" where
  "initialGallery ls =
     \<lparr>localStorage = ls, savedVideos = [], selectedVideo = None, searchTerm = [],
      sortBy = SortDate, filterBy = FilterAll\<rparr>"

definition mountGallery :: "local_storage \<Rightarrow> gallery" where
  "mountGallery ls = loadSavedVideos (initialGallery ls)"

definition deleteVideo :: "string \<Rightarrow> gallery \<Rightarrow> gallery" where
  "deleteVideo videoId g =
     (let updatedVideos = filter (\<lambda>video. id_v video \<noteq> videoId) (savedVideos g);
          g1 = g\<lparr>savedVideos := updatedVideos\<rparr>;
          g2 = g1\<lparr>localStorage := (localStorage g1)\<lparr>item_savedVideos := Some updatedVideos\<rparr>\<rparr>
      in (case selectedVideo g2 of
            None \<Rightarrow> g2
          | Some sel \<Rightarrow> if id_v sel = videoId then g2\<lparr>selectedVideo := None\<rparr> else g2))"

definition galleryView :: "platform \<Rightarrow> int \<Rightarrow> gallery \<Rightarrow> SavedVideo list" where
  "galleryView p now g =
     filteredAndSortedVideos p now (searchTerm g) (filterBy g) (sortBy g) (savedVideos g)"

text \<open>The state of the gallery agrees with the store: so it is after the mount and after every removal.\<close>

definition inSync :: "gallery \<Rightarrow> bool" where
  "inSync g = (savedVideos g = storedVideos (localStorage g))"

section \<open>The broadcaster (Broadcaster)\<close>

subsection \<open>The platform: tracks, recorder, exceptions\<close>

datatype track_kind = VideoTrack | AudioTrack

datatype ready_state = Live | Ended

record track =
  kind :: track_kind
  enabled :: bool
  readyState :: ready_state

text \<open>\<open>MediaStreamTrack.stop()\<close>: the track is ended; on an ended track nothing changes.\<close>

definition stopTrack :: "track \<Rightarrow> track" where
  "stopTrack t = t\<lparr>readyState := Ended\<rparr>"

datatype dom_exception = InvalidStateError | NotSupportedError | SecurityError

datatype recording_state = Inactive | Recording | Paused

text \<open>
  A \<open>MediaRecorder\<close> with the handlers that \<open>startStreaming\<close> installs. Every render of
  the component binds the constant \<open>recordingDuration\<close> anew and builds its own
  \<open>startStreaming\<close> and \<open>saveRecording\<close> over that binding; \<open>setRecordingDuration\<close> gives
  a later render the new value. The arrow function assigned to \<open>onstop\<close> calls the
  \<open>saveRecording\<close> of the render whose \<open>startStreaming\<close> assigned it, so the
  \<open>recordingDuration\<close> read on stopping is the one of that render, kept here as
  \<open>onstop_recordingDuration\<close>. The chunks are read through a ref and are current.
\<close>

record media_recorder =
  state_r :: recording_state
  onstop_recordingDuration :: int

text \<open>
  \<open>MediaRecorder.stop()\<close>: on an inactive recorder it raises \<open>InvalidStateError\<close> (newer
  browsers return at once instead; the model takes the stricter behaviour).
\<close>

definition mr_stop :: "media_recorder \<Rightarrow> dom_exception + media_recorder" where
  "mr_stop r = (if state_r r = Inactive then Inl InvalidStateError else Inr (r\<lparr>state_r := Inactive\<rparr>))"

text \<open>What \<open>new MediaRecorder(...)\<close> and \<open>mediaRecorder.start(1000)\<close> do is the platform's choice.\<close>

datatype mr_outcome = Started | ConstructorThrows dom_exception | StartThrows dom_exception

text \<open>A \<open>Blob\<close> is its bytes; \<open>new Blob(parts)\<close> is their concatenation.\<close>

type_synonym blob = "nat list"

definition blobSize :: "blob \<Rightarrow> nat" where
  "blobSize b = length b"

definition newBlob :: "blob list \<Rightarrow> blob" where
  "newBlob parts = concat parts"

text \<open>
  What \<open>saveRecording\<close> reads from the platform: \<open>Date.now()\<close>, the two results of
  \<open>new Date().toISOString()\<close>, and the result of \<open>URL.createObjectURL\<close>.
\<close>

record save_env =
  dateNow :: int
  isoFirst :: string
  isoSecond :: string
  objectURL :: string

subsection \<open>The state of the component\<close>

text \<open>
  The state variables and refs of the component that recording uses, the interval timers
  of the duration counter that are running (\<open>timers\<close>), the files handed to the user
  through the download link (\<open>downloads\<close>) and the lines of \<open>console.error\<close>. The viewer
  count, the QR code and the track toggles are left out.
\<close>

record broadcaster = browser +
  streamId_prop :: string
  isStreaming :: bool
  isRecording :: bool
  recordingDuration :: int
  streamRef :: "track list option"
  mediaRecorderRef :: "media_recorder option"
  recordedChunksRef :: "blob list"
  recordingIntervalRef :: "nat option"
  timers :: "nat list"
  nextTimer :: nat
  downloads :: "(string \<times> blob) list"
  console :: "string list"

definition initialBroadcaster :: "string \<Rightarrow> local_storage \<Rightarrow> broadcaster" where
  "initialBroadcaster sid ls =
     \<lparr>localStorage = ls, streamId_prop = sid, isStreaming = False, isRecording = False,
      recordingDuration = 0, streamRef = None, mediaRecorderRef = None, recordedChunksRef = [],
      recordingIntervalRef = None, timers = [], nextTimer = 1, downloads = [], console = []\<rparr>"

text \<open>\<open>startCamera\<close>: \<open>getUserMedia\<close> gives the tracks or fails (\<open>None\<close>).\<close>

definition startCamera :: "track list option \<Rightarrow> broadcaster \<Rightarrow> broadcaster" where
  "startCamera cam s =
     (case cam of
        Some stream \<Rightarrow> s\<lparr>streamRef := Some stream\<rparr>
      | None \<Rightarrow> s\<lparr>console := console s @ [''Error accessing camera:'']\<rparr>)"

subsection \<open>Handlers\<close>

definition startStreaming :: "mr_outcome \<Rightarrow> broadcaster \<Rightarrow> dom_exception + broadcaster" where
  "startStreaming outcome s =
     (case streamRef s of
        None \<Rightarrow> Inr s
      | Some stream \<Rightarrow>
          let s1 = s\<lparr>isStreaming := True, isRecording := True, recordingDuration := 0\<rparr> in
          (case outcome of
             ConstructorThrows e \<Rightarrow>
               Inr (s1\<lparr>console := console s1 @ [''Error starting recording:'']\<rparr>)
           | StartThrows e \<Rightarrow>
               Inr (s1\<lparr>mediaRecorderRef :=
                          Some \<lparr>state_r = Inactive, onstop_recordingDuration = recordingDuration s\<rparr>,
                        recordedChunksRef := [],
                        console := console s1 @ [''Error starting recording:'']\<rparr>)
           | Started \<Rightarrow>
               Inr (s1\<lparr>mediaRecorderRef :=
                          Some \<lparr>state_r = Recording, onstop_recordingDuration = recordingDuration s\<rparr>,
                        recordedChunksRef := [],
                        recordingIntervalRef := Some (nextTimer s1),
                        timers := timers s1 @ [nextTimer s1],
                        nextTimer := Suc (nextTimer s1)\<rparr>)))"

text \<open>\<open>mediaRecorder.ondataavailable\<close>.\<close>

definition ondataavailable :: "blob \<Rightarrow> broadcaster \<Rightarrow> broadcaster" where
  "ondataavailable data s =
     (if blobSize data > 0 then s\<lparr>recordedChunksRef := recordedChunksRef s @ [data]\<rparr> else s)"

text \<open>The callback of the duration timer: \<open>setRecordingDuration(prev => prev + 1)\<close>.\<close>

definition durationTick :: "broadcaster \<Rightarrow> broadcaster" where
  "durationTick s = s\<lparr>recordingDuration := recordingDuration s + 1\<rparr>"

text \<open>\<open>toISOString().replace(/[:.]/g, '-')\<close>.\<close>

definition replaceColonDot :: "string \<Rightarrow> string" where
  "replaceColonDot stamp = map (\<lambda>c. if c = CHR '':'' \<or> c = CHR ''.'' then CHR ''-'' else c) stamp"

definition recordingFilename :: "string \<Rightarrow> string \<Rightarrow> string" where
  "recordingFilename sid stamp = ''stream-'' @ sid @ ''-'' @ replaceColonDot stamp @ ''.webm''"

text \<open>
  The object literal that \<open>saveRecording\<close> pushes; \<open>rd\<close> is the \<open>recordingDuration\<close> it
  reads. The object URL is revoked right after the download; the record keeps its text.
\<close>

definition recordingObject :: "save_env \<Rightarrow> string \<Rightarrow> int \<Rightarrow> js_object" where
  "recordingObject env sid rd =
     [(''id'', JNumber (dateNow env)),
      (''streamId'', JString sid),
      (''filename'', JString (recordingFilename sid (isoFirst env))),
      (''date'', JString (isoSecond env)),
      (''duration'', JNumber rd),
      (''url'', JString (objectURL env))]"

definition saveRecording :: "save_env \<Rightarrow> int \<Rightarrow> broadcaster \<Rightarrow> broadcaster" where
  "saveRecording env rd s =
     (if length (recordedChunksRef s) = 0 then s
      else
        let blob = newBlob (recordedChunksRef s);
            s1 = s\<lparr>downloads := downloads s @ [(recordingFilename (streamId_prop s) (isoFirst env), blob)]\<rparr>;
            recordings = storedRecordings (localStorage s1)
        in s1\<lparr>localStorage := (localStorage s1)
                  \<lparr>item_streamRecordings :=
                     Some (recordings @ [recordingObject env (streamId_prop s1) rd])\<rparr>\<rparr>)"

text \<open>\<open>mediaRecorder.onstop\<close>.\<close>

definition onstop :: "save_env \<Rightarrow> broadcaster \<Rightarrow> broadcaster" where
  "onstop env s =
     (case mediaRecorderRef s of
        None \<Rightarrow> s
      | Some r \<Rightarrow> saveRecording env (onstop_recordingDuration r) s)"

text \<open>The three steps of \<open>stopStreaming\<close> after the two setters.\<close>

definition stopRecorder :: "broadcaster \<Rightarrow> dom_exception + broadcaster" where
  "stopRecorder s =
     (case mediaRecorderRef s of
        None \<Rightarrow> Inr s
      | Some r \<Rightarrow>
          if state_r r \<noteq> Inactive
          then (case mr_stop r of Inl e \<Rightarrow> Inl e | Inr r' \<Rightarrow> Inr (s\<lparr>mediaRecorderRef := Some r'\<rparr>))
          else Inr s)"

definition clearRecordingInterval :: "broadcaster \<Rightarrow> broadcaster" where
  "clearRecordingInterval s =
     (case recordingIntervalRef s of
        None \<Rightarrow> s
      | Some t \<Rightarrow> s\<lparr>timers := removeAll t (timers s)\<rparr>)"

definition stopTracks :: "broadcaster \<Rightarrow> broadcaster" where
  "stopTracks s =
     (case streamRef s of
        None \<Rightarrow> s
      | Some stream \<Rightarrow> s\<lparr>streamRef := Some (map stopTrack stream)\<rparr>)"

definition stopStreaming :: "broadcaster \<Rightarrow> dom_exception + broadcaster" where
  "stopStreaming s =
     (case stopRecorder (s\<lparr>isStreaming := False, isRecording := False\<rparr>) of
        Inl e \<Rightarrow> Inl e
      | Inr s2 \<Rightarrow> Inr (stopTracks (clearRecordingInterval s2)))"

subsection \<open>A recording run\<close>

text \<open>
  What the platform delivers while the recorder runs: a tick of an interval timer, or a
  chunk of recorded data. A tick of a cleared timer does not arrive; a chunk arrives only
  when a recorder carries the handler.
\<close>

datatype event = IntervalTick nat | DataAvailable blob

fun handle :: "event \<Rightarrow> broadcaster \<Rightarrow> broadcaster" where
  "handle (IntervalTick t) s = (if t \<in> set (timers s) then durationTick s else s)"
| "handle (DataAvailable data) s = (if mediaRecorderRef s = None then s else ondataavailable data s)"

definition recorderActive :: "broadcaster \<Rightarrow> bool" where
  "recorderActive s = (case mediaRecorderRef s of None \<Rightarrow> False | Some r \<Rightarrow> state_r r \<noteq> Inactive)"

text \<open>
  A run: \<open>startStreaming\<close>, then the events \<open>evs\<close>, then \<open>stopStreaming\<close>. When that
  stopped an active recorder, the recorder delivers the data it still holds (\<open>final\<close>,
  possibly empty) and then its stop event.
\<close>

definition completeRun ::
  "mr_outcome \<Rightarrow> event list \<Rightarrow> blob \<Rightarrow> save_env \<Rightarrow> broadcaster \<Rightarrow> dom_exception + broadcaster" where
  "completeRun outcome evs final env s =
     (case startStreaming outcome s of
        Inl e \<Rightarrow> Inl e
      | Inr s1 \<Rightarrow>
          let s2 = fold handle evs s1 in
          (case stopStreaming s2 of
             Inl e \<Rightarrow> Inl e
           | Inr s3 \<Rightarrow>
               if recorderActive s2 then Inr (onstop env (ondataavailable final s3)) else Inr s3))"

text \<open>The chunks of a run: the data of its events, in their order.\<close>

fun chunksOf :: "event list \<Rightarrow> blob list" where
  "chunksOf [] = []"
| "chunksOf (IntervalTick t # evs) = chunksOf evs"
| "chunksOf (DataAvailable data # evs) = data # chunksOf evs"

text \<open>The chunks that \<open>ondataavailable\<close> keeps: those that are not empty.\<close>

definition keptChunks :: "blob list \<Rightarrow> blob list" where
  "keptChunks chunks = filter (\<lambda>data. blobSize data > 0) chunks"

text \<open>The timer ticks of a run, in their order.\<close>

fun ticksOf :: "event list \<Rightarrow> nat list" where
  "ticksOf [] = []"
| "ticksOf (IntervalTick t # evs) = t # ticksOf evs"
| "ticksOf (DataAvailable data # evs) = ticksOf evs"

text \<open>Reading a result: the tracks of the stream, and the durations of the stored records.\<close>

definition tracksOf :: "broadcaster \<Rightarrow> track list" where
  "tracksOf s = (case streamRef s of None \<Rightarrow> [] | Some stream \<Rightarrow> stream)"

definition persistedDurations :: "broadcaster \<Rightarrow> js_value option list" where
  "persistedDurations s = map (\<lambda>recording. map_of recording ''duration'') (storedRecordings (localStorage s))"

section \<open>Example values\<close>

text \<open>
  An example platform in UTC that reads three timestamps and lower-cases the capitals of
  Latin-1 (\<open>A\<close> to \<open>Z\<close> and U+00C0 to U+00DE, U+00D7 apart), which is what JavaScript
  does on strings of Latin-1 characters; and the instant 2024-05-02 12:00 UTC.
\<close>

definition latin1Lower :: "16 word \<Rightarrow> 16 word" where
  "latin1Lower u =
     (if (0x41 \<le> u \<and> u \<le> 0x5A) \<or> (0xC0 \<le> u \<and> u \<le> 0xDE \<and> u \<noteq> 0xD7) then u + 0x20 else u)"

definition utcPlatform :: platform where
  "utcPlatform =
     \<lparr>toLowerCase = map latin1Lower,
      parseDate = (\<lambda>stamp.
          if stamp = ''2024-05-02T10:00:00.000Z'' then Some 1714644000000
          else if stamp = ''2024-05-01T23:00:00.000Z'' then Some 1714604400000
          else if stamp = ''2024-04-22T12:00:00.000Z'' then Some 1713787200000
          else None),
      tz = (\<lambda>t. 0),
      localeCompare = (\<lambda>a b. if a < b then - 1 else if a = b then 0 else 1)\<rparr>"

definition noon :: int where
  "noon = 1714651200000"

definition clipA :: SavedVideo where
  "clipA = \<lparr>id_v = ''a'', filename = codeUnits ''clip1.dat'', url = ''blob:a'',
            timestamp = ''2024-05-02T10:00:00.000Z'', duration = 30,
            streamId = codeUnits ''ABC123''\<rparr>"

definition clipB :: SavedVideo where
  "clipB = \<lparr>id_v = ''b'', filename = codeUnits ''clip2.dat'', url = ''blob:b'',
            timestamp = ''2024-04-22T12:00:00.000Z'', duration = 90,
            streamId = codeUnits ''ABC123''\<rparr>"

definition clipC :: SavedVideo where
  "clipC = \<lparr>id_v = ''c'', filename = codeUnits ''Night.webm'', url = ''blob:c'',
            timestamp = ''2024-05-01T23:00:00.000Z'', duration = 30,
            streamId = codeUnits ''XYZ789''\<rparr>"



definition exampleStore :: local_storage where
  "exampleStore = \<lparr>item_savedVideos = Some [clipC, clipA, clipB], item_streamRecordings = None\<rparr>"

definition emptyStore :: local_storage where
  "emptyStore = \<lparr>item_savedVideos = None, item_streamRecordings = None\<rparr>"

definition exampleGallery :: gallery where
  "exampleGallery = (mountGallery exampleStore)\<lparr>selectedVideo := Some clipA\<rparr>"

definition exampleTracks :: "track list" where
  "exampleTracks =
     [\<lparr>kind = VideoTrack, enabled = True, readyState = Live\<rparr>,
      \<lparr>kind = AudioTrack, enabled = True, readyState = Live\<rparr>]"

definition exampleEnv :: save_env where
  "exampleEnv =
     \<lparr>dateNow = 1714651200000, isoFirst = ''2024-05-02T12:00:00.000Z'',
      isoSecond = ''2024-05-02T12:00:00.001Z'', objectURL = ''blob:1''\<rparr>"

text \<open>The broadcaster after its mount, with the camera acquired, over an empty store.\<close>

definition readyBroadcaster :: broadcaster where
  "readyBroadcaster = startCamera (Some exampleTracks) (initialBroadcaster ''ABC123'' emptyStore)"

text \<open>The broadcaster while it records, and three seconds of a run: a chunk and a tick each.\<close>

definition recordingBroadcaster :: broadcaster where
  "recordingBroadcaster = projr (startStreaming Started readyBroadcaster)"

definition threeSeconds :: "event list" where
  "threeSeconds =
     [DataAvailable [7], IntervalTick 1, DataAvailable [8], IntervalTick 1,
      DataAvailable [9], IntervalTick 1]"

section \<open>Strings: what the search finds\<close>




section \<open>Sorting\<close>

lemma set_insertBy: "set (insertBy cmp x ys) = insert x (set ys)"
  by (induction ys) auto

lemma set_sortBy_cmp: "set (sortBy_cmp cmp xs) = set xs"
  by (induction xs) (auto simp: sortBy_cmp_def set_insertBy)

lemma length_insertBy: "length (insertBy cmp x ys) = Suc (length ys)"
  by (induction ys) auto

lemma length_sortBy_cmp: "length (sortBy_cmp cmp xs) = length xs"
  by (induction xs) (auto simp: sortBy_cmp_def length_insertBy)

lemma compare_duration: "compareVideos p SortDuration a b \<le> 0 \<longleftrightarrow> duration b \<le> duration a"
  by (simp add: compareVideos_def)

lemma insertBy_duration_sorted:
  "sorted_wrt (\<lambda>a b. duration b \<le> duration a) ys \<Longrightarrow>
   sorted_wrt (\<lambda>a b. duration b \<le> duration a) (insertBy (compareVideos p SortDuration) x ys)"
proof (induction ys)
  case Nil
  show ?case by simp
next
  case (Cons y ys)
  show ?case
  proof (cases "compareVideos p SortDuration x y \<le> 0")
    case True
    then have "duration y \<le> duration x" by (simp add: compare_duration)
    then have "\<forall>z\<in>set ys. duration z \<le> duration x" using Cons.prems by fastforce
    then show ?thesis using True Cons.prems \<open>duration y \<le> duration x\<close> by simp
  next
    case False
    then have "duration x \<le> duration y" by (simp add: compare_duration)
    moreover have "sorted_wrt (\<lambda>a b. duration b \<le> duration a) (insertBy (compareVideos p SortDuration) x ys)"
      using Cons by simp
    ultimately show ?thesis using False Cons.prems by (auto simp: set_insertBy)
  qed
qed

lemma sortBy_duration_sorted:
  "sorted_wrt (\<lambda>a b. duration b \<le> duration a) (sortBy_cmp (compareVideos p SortDuration) xs)"
proof (induction xs)
  case Nil
  show ?case by (simp add: sortBy_cmp_def)
next
  case (Cons x xs)
  then show ?case using insertBy_duration_sorted by (simp add: sortBy_cmp_def)
qed

lemma insertBy_duration_stable:
  "filter (\<lambda>v. duration v = d) (insertBy (compareVideos p SortDuration) x ys) =
   filter (\<lambda>v. duration v = d) (x # ys)"
proof (induction ys)
  case Nil
  show ?case by simp
next
  case (Cons y ys)
  show ?case
  proof (cases "compareVideos p SortDuration x y \<le> 0")
    case True
    then show ?thesis by simp
  next
    case False
    then have "duration x < duration y" by (simp add: compare_duration)
    then show ?thesis using False Cons.IH by auto
  qed
qed

lemma sortBy_duration_stable:
  "filter (\<lambda>v. duration v = d) (sortBy_cmp (compareVideos p SortDuration) xs) =
   filter (\<lambda>v. duration v = d) xs"
proof (induction xs)
  case Nil
  show ?case by (simp add: sortBy_cmp_def)
next
  case (Cons x xs)
  have "filter (\<lambda>v. duration v = d) (sortBy_cmp (compareVideos p SortDuration) (x # xs)) =
        filter (\<lambda>v. duration v = d) (x # sortBy_cmp (compareVideos p SortDuration) xs)"
    by (simp add: sortBy_cmp_def insertBy_duration_stable)
  then show ?case using Cons.IH by simp
qed

section \<open>The query engine\<close>

text \<open>
  Claim C5, as the specification states it, fails: sorted by duration, two stored records
  of equal duration come out in the order in which they are stored, here \<open>c\<close> before
  \<open>a\<close>, not in ascending order of \<open>id\<close>.
\<close>

theorem sort_duration_tie_counterexample:
  "filteredAndSortedVideos utcPlatform noon [] FilterAll SortDuration [clipC, clipA, clipB] = [clipB, clipC, clipA]
   \<and> \<not> sorted_wrt durationOrder (filteredAndSortedVideos utcPlatform noon [] FilterAll SortDuration [clipC, clipA, clipB])"
  by code_simp

text \<open>
  Claim C5, amended: for every catalog and every query sorted by duration, the result is
  monotonically non-increasing in \<open>duration\<close>, it holds the records that pass the filter,
  and the records of any one duration \<open>d\<close> appear in the order in which the catalog stores
  them (the sort is stable; there is no tie-break on \<open>id\<close>).
\<close>

theorem sort_duration_stable:
  "sorted_wrt (\<lambda>a b. duration b \<le> duration a) (filteredAndSortedVideos p now q fb SortDuration videos) \<and>
   filter (\<lambda>v. duration v = d) (filteredAndSortedVideos p now q fb SortDuration videos) =
   filter (\<lambda>v. duration v = d) (filteredVideos p now q fb videos) \<and>
   set (filteredAndSortedVideos p now q fb SortDuration videos) = set (filteredVideos p now q fb videos) \<and>
   length (filteredAndSortedVideos p now q fb SortDuration videos) = length (filteredVideos p now q fb videos)"
  by (simp add: filteredAndSortedVideos_def sortBy_duration_sorted sortBy_duration_stable
      set_sortBy_cmp length_sortBy_cmp)

theorem sort_duration_stable_witness:
  "sorted_wrt (\<lambda>a b. duration b \<le> duration a)
     (filteredAndSortedVideos utcPlatform noon [] FilterAll SortDuration [clipC, clipA, clipB]) \<and>
   filter (\<lambda>v. duration v = 30)
     (filteredAndSortedVideos utcPlatform noon [] FilterAll SortDuration [clipC, clipA, clipB]) =
   [clipC, clipA]"
proof -
  have f: "filteredVideos utcPlatform noon [] FilterAll [clipC, clipA, clipB] = [clipC, clipA, clipB]"
    by code_simp
  have d: "filter (\<lambda>v. duration v = 30) [clipC, clipA, clipB] = [clipC, clipA]"
    by (simp add: clipA_def clipB_def clipC_def)
  show ?thesis
    using sort_duration_stable[of utcPlatform noon "[]" FilterAll "[clipC, clipA, clipB]" 30] f d
    by simp
qed





section \<open>Removing a record\<close>

lemma savedVideos_deleteVideo:
  "savedVideos (deleteVideo videoId g) = filter (\<lambda>video. id_v video \<noteq> videoId) (savedVideos g)"
  by (simp add: deleteVideo_def Let_def split: option.splits)

lemma storedVideos_deleteVideo:
  "storedVideos (localStorage (deleteVideo videoId g)) = filter (\<lambda>video. id_v video \<noteq> videoId) (savedVideos g)"
  by (simp add: deleteVideo_def Let_def storedVideos_def split: option.splits)

lemma inSync_mountGallery: "inSync (mountGallery ls)"
  by (simp add: inSync_def mountGallery_def loadSavedVideos_def initialGallery_def)

lemma inSync_deleteVideo: "inSync (deleteVideo videoId g)"
  by (simp add: inSync_def savedVideos_deleteVideo storedVideos_deleteVideo)

lemma inSync_loadSavedVideos: "inSync (loadSavedVideos g)"
  by (simp add: inSync_def loadSavedVideos_def)

lemma filter_absent: "videoId \<notin> id_v ` set vs \<Longrightarrow> filter (\<lambda>video. id_v video \<noteq> videoId) vs = vs"
  by (induction vs) auto

lemma deleteVideo_twice: "deleteVideo videoId (deleteVideo videoId g) = deleteVideo videoId g"
  by (simp add: deleteVideo_def Let_def split: option.splits)

text \<open>
  Claim C7: after \<open>deleteVideo videoId\<close> no record of the list has that \<open>id\<close>, neither in
  the state of the gallery nor in what a fresh load reads from the store; removing the same
  \<open>id\<close> a second time changes nothing; and removing an \<open>id\<close> that no record has leaves the
  list and the stored list as they are. \<open>deleteVideo\<close> has no failing branch.
\<close>

theorem deleteVideo_removes:
  "videoId \<notin> id_v ` set (savedVideos (deleteVideo videoId g)) \<and>
   videoId \<notin> id_v ` set (savedVideos (loadSavedVideos (deleteVideo videoId g))) \<and>
   deleteVideo videoId (deleteVideo videoId g) = deleteVideo videoId g \<and>
   (inSync g \<and> videoId \<notin> id_v ` set (savedVideos g) \<longrightarrow>
      savedVideos (deleteVideo videoId g) = savedVideos g \<and>
      storedVideos (localStorage (deleteVideo videoId g)) = storedVideos (localStorage g))"
proof -
  have a: "videoId \<notin> id_v ` set (savedVideos (deleteVideo videoId g))"
    by (auto simp: savedVideos_deleteVideo)
  have b: "videoId \<notin> id_v ` set (savedVideos (loadSavedVideos (deleteVideo videoId g)))"
    by (auto simp: loadSavedVideos_def storedVideos_deleteVideo)
  have c: "inSync g \<and> videoId \<notin> id_v ` set (savedVideos g) \<longrightarrow>
      savedVideos (deleteVideo videoId g) = savedVideos g \<and>
      storedVideos (localStorage (deleteVideo videoId g)) = storedVideos (localStorage g)"
  proof
    assume h: "inSync g \<and> videoId \<notin> id_v ` set (savedVideos g)"
    then have "filter (\<lambda>video. id_v video \<noteq> videoId) (savedVideos g) = savedVideos g"
      using filter_absent by blast
    moreover have "savedVideos g = storedVideos (localStorage g)"
      using h by (simp add: inSync_def)
    ultimately show "savedVideos (deleteVideo videoId g) = savedVideos g \<and>
      storedVideos (localStorage (deleteVideo videoId g)) = storedVideos (localStorage g)"
      by (simp add: savedVideos_deleteVideo storedVideos_deleteVideo)
  qed
  show ?thesis using a b c deleteVideo_twice by blast
qed
theorem deleteVideo_removes_witness:
  "inSync exampleGallery \<and> ''zz'' \<notin> id_v ` set (savedVideos exampleGallery) \<and>
   savedVideos (deleteVideo ''zz'' exampleGallery) = [clipC, clipA, clipB] \<and>
   storedVideos (localStorage (deleteVideo ''zz'' exampleGallery)) = [clipC, clipA, clipB] \<and>
   savedVideos (deleteVideo ''a'' exampleGallery) = [clipC, clipB]"
proof -
  have s: "savedVideos exampleGallery = [clipC, clipA, clipB]"
    by (simp add: exampleGallery_def mountGallery_def loadSavedVideos_def initialGallery_def
        exampleStore_def storedVideos_def)
  have i: "inSync exampleGallery"
    by (simp add: inSync_def exampleGallery_def mountGallery_def loadSavedVideos_def initialGallery_def)
  have n: "''zz'' \<notin> id_v ` set (savedVideos exampleGallery)"
    by (simp add: s clipA_def clipB_def clipC_def)
  have d: "savedVideos (deleteVideo ''a'' exampleGallery) = [clipC, clipB]"
    by (simp add: savedVideos_deleteVideo s clipA_def clipB_def clipC_def)
  have t: "storedVideos (localStorage exampleGallery) = [clipC, clipA, clipB]"
    using i s by (simp add: inSync_def)
  show ?thesis using deleteVideo_removes[of "''zz''" exampleGallery] i n d s t by simp
qed

text \<open>
  Claim C9: after \<open>deleteVideo videoId\<close> the selected record, if there is one, does not
  have the removed \<open>id\<close>.
\<close>

theorem deleteVideo_clears_selection:
  "(case selectedVideo (deleteVideo videoId g) of None \<Rightarrow> True | Some sel \<Rightarrow> id_v sel \<noteq> videoId)"
  by (simp add: deleteVideo_def Let_def split: option.splits)

theorem deleteVideo_clears_selection_witness:
  "selectedVideo exampleGallery = Some clipA \<and> id_v clipA = ''a'' \<and> selectedVideo (deleteVideo ''a'' exampleGallery) = None"
  using deleteVideo_clears_selection[of "''a''" exampleGallery]
  by (simp add: exampleGallery_def clipA_def deleteVideo_def Let_def)

section \<open>Starting\<close>

lemma startStreaming_Inr: "\<not> isl (startStreaming outcome s)"
  by (simp add: startStreaming_def Let_def split: option.splits mr_outcome.splits)

lemma startStreaming_no_stream: "streamRef s = None \<Longrightarrow> startStreaming outcome s = Inr s"
  by (simp add: startStreaming_def)

lemma startStreaming_Started:
  "streamRef s = Some stream \<Longrightarrow>
   startStreaming Started s =
     Inr (s\<lparr>isStreaming := True, isRecording := True, recordingDuration := 0,
            mediaRecorderRef := Some \<lparr>state_r = Recording, onstop_recordingDuration = recordingDuration s\<rparr>,
            recordedChunksRef := [],
            recordingIntervalRef := Some (nextTimer s),
            timers := timers s @ [nextTimer s],
            nextTimer := Suc (nextTimer s)\<rparr>)"
  by (simp add: startStreaming_def Let_def)
lemma startStreaming_with_stream:
  assumes "streamRef s = Some stream"
  shows "isStreaming (projr (startStreaming outcome s)) \<and>
         isRecording (projr (startStreaming outcome s)) \<and>
         recordingDuration (projr (startStreaming outcome s)) = 0"
  using assms by (cases outcome) (simp_all add: startStreaming_def Let_def)

lemma startStreaming_restart:
  assumes "streamRef s = Some stream"
  shows "recorderActive (projr (startStreaming Started s)) \<and>
         recordedChunksRef (projr (startStreaming Started s)) = []"
  using startStreaming_Started[OF assms] by (simp add: recorderActive_def)

lemma startStreaming_caught:
  assumes "streamRef s = Some stream" and "outcome \<noteq> Started"
  shows "console (projr (startStreaming outcome s)) = console s @ [''Error starting recording:'']"
  using assms by (cases outcome) (simp_all add: startStreaming_def Let_def)

text \<open>
  Claim C4, as the specification states it, fails: without a stream \<open>startStreaming\<close>
  returns with the state as it was, and while recording it returns normally too; in neither
  case does the caller get an \<open>InvalidStateError\<close>.
\<close>

theorem startStreaming_error_counterexample:
  "streamRef (initialBroadcaster ''ABC123'' emptyStore) = None \<and>
   startStreaming Started (initialBroadcaster ''ABC123'' emptyStore) = Inr (initialBroadcaster ''ABC123'' emptyStore) \<and>
   startStreaming Started (initialBroadcaster ''ABC123'' emptyStore) \<noteq> Inl InvalidStateError \<and>
   isRecording recordingBroadcaster \<and>
   startStreaming Started recordingBroadcaster \<noteq> Inl InvalidStateError"
proof -
  have a: "streamRef (initialBroadcaster ''ABC123'' emptyStore) = None"
    by (simp add: initialBroadcaster_def)
  have b: "startStreaming Started (initialBroadcaster ''ABC123'' emptyStore) = Inr (initialBroadcaster ''ABC123'' emptyStore)"
    using a by (simp add: startStreaming_def)
  have c: "isRecording recordingBroadcaster" by code_simp
  have d: "\<not> isl (startStreaming Started recordingBroadcaster)"
    by (simp add: startStreaming_def Let_def split: option.splits)
  show ?thesis using a b c d by auto
qed

text \<open>
  Claim C4, amended: \<open>startStreaming\<close> never fails. Without a stream it returns at once
  and changes nothing. With a stream it sets \<open>isStreaming\<close> and \<open>isRecording\<close> and resets
  \<open>recordingDuration\<close>, whether or not a recording is already running; when the recorder
  starts, the run begins with an active recorder and no chunks; when the platform raises
  an exception, the exception is caught and written to the console.
\<close>

theorem startStreaming_never_fails:
  "\<not> isl (startStreaming outcome s) \<and>
   (streamRef s = None \<longrightarrow> startStreaming outcome s = Inr s) \<and>
   (streamRef s \<noteq> None \<longrightarrow>
      isStreaming (projr (startStreaming outcome s)) \<and>
      isRecording (projr (startStreaming outcome s)) \<and>
      recordingDuration (projr (startStreaming outcome s)) = 0) \<and>
   (streamRef s \<noteq> None \<and> outcome = Started \<longrightarrow>
      recorderActive (projr (startStreaming outcome s)) \<and>
      recordedChunksRef (projr (startStreaming outcome s)) = []) \<and>
   (streamRef s \<noteq> None \<and> outcome \<noteq> Started \<longrightarrow>
      console (projr (startStreaming outcome s)) = console s @ [''Error starting recording:''])"
  using startStreaming_Inr[of outcome s] startStreaming_no_stream[of s outcome]
    startStreaming_with_stream[of s _ outcome] startStreaming_restart[of s]
    startStreaming_caught[of s _ outcome]
  by auto
theorem startStreaming_never_fails_witness:
  "streamRef (initialBroadcaster ''ABC123'' emptyStore) = None \<and>
   startStreaming (StartThrows InvalidStateError) (initialBroadcaster ''ABC123'' emptyStore) =
     Inr (initialBroadcaster ''ABC123'' emptyStore) \<and>
   streamRef recordingBroadcaster \<noteq> None \<and> isRecording recordingBroadcaster \<and>
   recorderActive (projr (startStreaming Started recordingBroadcaster)) \<and>
   recordedChunksRef (projr (startStreaming Started recordingBroadcaster)) = [] \<and>
   recordingDuration (projr (startStreaming Started recordingBroadcaster)) = 0 \<and>
   console (projr (startStreaming (StartThrows InvalidStateError) recordingBroadcaster)) =
     [''Error starting recording:'']"
proof -
  have a: "streamRef (initialBroadcaster ''ABC123'' emptyStore) = None"
    by (simp add: initialBroadcaster_def)
  have b: "streamRef recordingBroadcaster \<noteq> None" by code_simp
  have c: "isRecording recordingBroadcaster" by code_simp
  have d: "console recordingBroadcaster = []" by code_simp
  show ?thesis
    using startStreaming_never_fails[of "StartThrows InvalidStateError" "initialBroadcaster ''ABC123'' emptyStore"]
      startStreaming_never_fails[of Started recordingBroadcaster]
      startStreaming_never_fails[of "StartThrows InvalidStateError" recordingBroadcaster]
      a b c d
    by simp
qed

section \<open>Stopping\<close>

lemma stopRecorder_Inr: "\<not> isl (stopRecorder s)"
  by (simp add: stopRecorder_def mr_stop_def split: option.splits)

lemma stopRecorder_inactive: "\<not> recorderActive s \<Longrightarrow> stopRecorder s = Inr s"
  by (simp add: stopRecorder_def recorderActive_def split: option.splits)

lemma stopRecorder_result:
  "stopRecorder s = Inr s2 \<Longrightarrow>
   \<not> recorderActive s2 \<and> streamRef s2 = streamRef s \<and> recordingIntervalRef s2 = recordingIntervalRef s \<and>
   timers s2 = timers s \<and> isStreaming s2 = isStreaming s \<and> isRecording s2 = isRecording s"
  by (auto simp: stopRecorder_def mr_stop_def recorderActive_def split: option.splits if_splits)

lemma stopTrack_idem: "stopTrack (stopTrack t) = stopTrack t"
  by (simp add: stopTrack_def)

lemma stopTracks_idem: "stopTracks (stopTracks s) = stopTracks s"
  by (simp add: stopTracks_def stopTrack_idem comp_def split: option.splits)

lemma clearRecordingInterval_idem: "clearRecordingInterval (clearRecordingInterval s) = clearRecordingInterval s"
  by (simp add: clearRecordingInterval_def split: option.splits)

lemma clear_stopTracks_commute:
  "clearRecordingInterval (stopTracks s) = stopTracks (clearRecordingInterval s)"
  by (simp add: clearRecordingInterval_def stopTracks_def split: option.splits)

lemma recorderActive_teardown:
  "recorderActive (stopTracks (clearRecordingInterval s)) = recorderActive s"
  by (simp add: recorderActive_def clearRecordingInterval_def stopTracks_def split: option.splits)

lemma flags_teardown:
  "isStreaming (stopTracks (clearRecordingInterval s)) = isStreaming s \<and>
   isRecording (stopTracks (clearRecordingInterval s)) = isRecording s"
  by (simp add: clearRecordingInterval_def stopTracks_def split: option.splits)

lemma stopStreaming_again:
  assumes "stopStreaming s = Inr s'"
  shows "stopStreaming s' = Inr s'"
proof -
  obtain s2 where r: "stopRecorder (s\<lparr>isStreaming := False, isRecording := False\<rparr>) = Inr s2"
    and s': "s' = stopTracks (clearRecordingInterval s2)"
    using assms by (auto simp: stopStreaming_def split: sum.splits)
  have p: "\<not> recorderActive s2" "isStreaming s2 = False" "isRecording s2 = False"
    using stopRecorder_result[OF r] by simp_all
  have f: "s'\<lparr>isStreaming := False, isRecording := False\<rparr> = s'"
    using p flags_teardown[of s2] by (simp add: s')
  have "\<not> recorderActive s'" using p by (simp add: s' recorderActive_teardown)
  then have "stopRecorder s' = Inr s'" by (rule stopRecorder_inactive)
  then have "stopStreaming s' = Inr (stopTracks (clearRecordingInterval s'))"
    by (simp add: stopStreaming_def f)
  also have "stopTracks (clearRecordingInterval s') = s'"
    by (simp add: s' clear_stopTracks_commute clearRecordingInterval_idem stopTracks_idem)
  finally show ?thesis .
qed

lemma tracks_stopTracks: "list_all (\<lambda>t. readyState t = Ended) (tracksOf (stopTracks s))"
  by (auto simp: stopTracks_def tracksOf_def stopTrack_def list_all_iff split: option.splits)

lemma stopStreaming_Inr: "\<not> isl (stopStreaming s)"
  using stopRecorder_Inr[of "s\<lparr>isStreaming := False, isRecording := False\<rparr>"]
  by (auto simp: stopStreaming_def split: sum.splits)

text \<open>
  Claim C8: \<open>stopStreaming\<close> raises no error; after it every track of the stream is
  ended; and invoked again on the state it leaves, it returns that state unchanged.
\<close>

theorem stopStreaming_idempotent:
  "\<not> isl (stopStreaming s) \<and>
   stopStreaming (projr (stopStreaming s)) = stopStreaming s \<and>
   list_all (\<lambda>t. readyState t = Ended) (tracksOf (projr (stopStreaming s)))"
proof -
  obtain s' where e: "stopStreaming s = Inr s'"
    using stopStreaming_Inr[of s] by (cases "stopStreaming s") auto
  then obtain s2 where "s' = stopTracks s2"
    by (auto simp: stopStreaming_def split: sum.splits)
  then have "list_all (\<lambda>t. readyState t = Ended) (tracksOf s')"
    by (simp add: tracks_stopTracks)
  then show ?thesis using e stopStreaming_again[OF e] by simp
qed

theorem stopStreaming_idempotent_witness:
  "recorderActive recordingBroadcaster \<and> timers recordingBroadcaster = [1] \<and>
   tracksOf recordingBroadcaster = exampleTracks \<and>
   stopStreaming (projr (stopStreaming recordingBroadcaster)) = stopStreaming recordingBroadcaster \<and>
   list_all (\<lambda>t. readyState t = Ended) (tracksOf (projr (stopStreaming recordingBroadcaster))) \<and>
   length (tracksOf (projr (stopStreaming recordingBroadcaster))) = 2 \<and>
   timers (projr (stopStreaming recordingBroadcaster)) = [] \<and>
   \<not> recorderActive (projr (stopStreaming recordingBroadcaster))"
proof -
  have a: "recorderActive recordingBroadcaster" by code_simp
  have b: "timers recordingBroadcaster = [1]" by code_simp
  have c: "tracksOf recordingBroadcaster = exampleTracks" by code_simp
  have d: "length (tracksOf (projr (stopStreaming recordingBroadcaster))) = 2" by code_simp
  have e: "timers (projr (stopStreaming recordingBroadcaster)) = []" by code_simp
  have f: "\<not> recorderActive (projr (stopStreaming recordingBroadcaster))" by code_simp
  show ?thesis
    using stopStreaming_idempotent[of recordingBroadcaster] a b c d e f by simp
qed

section \<open>Saving a recording\<close>

lemma saveRecording_empty: "recordedChunksRef s = [] \<Longrightarrow> saveRecording env rd s = s"
  by (simp add: saveRecording_def)

lemma saveRecording_store:
  "recordedChunksRef s \<noteq> [] \<Longrightarrow>
   storedRecordings (localStorage (saveRecording env rd s)) =
     storedRecordings (localStorage s) @ [recordingObject env (streamId_prop s) rd]"
  by (simp add: saveRecording_def Let_def storedRecordings_def)

lemma saveRecording_savedVideos:
  "item_savedVideos (localStorage (saveRecording env rd s)) = item_savedVideos (localStorage s)"
  by (simp add: saveRecording_def Let_def)

lemma saveRecording_downloads:
  "recordedChunksRef s \<noteq> [] \<Longrightarrow>
   downloads (saveRecording env rd s) =
     downloads s @ [(recordingFilename (streamId_prop s) (isoFirst env), newBlob (recordedChunksRef s))]"
  by (simp add: saveRecording_def Let_def)

text \<open>
  Claim C10: when \<open>saveRecording\<close> persists a recording (it has at least one chunk), the
  stored collection afterwards is the stored collection before with one record appended
  at its end, for every prior content of the store; the gallery's key is not touched.
\<close>

theorem saveRecording_appends_one:
  "recordedChunksRef s \<noteq> [] \<Longrightarrow>
   storedRecordings (localStorage (saveRecording env rd s)) =
     storedRecordings (localStorage s) @ [recordingObject env (streamId_prop s) rd] \<and>
   item_savedVideos (localStorage (saveRecording env rd s)) = item_savedVideos (localStorage s)"
  by (simp add: saveRecording_store saveRecording_savedVideos)
theorem saveRecording_appends_one_witness:
  "recordedChunksRef recordingBroadcaster = [] \<and>
   storedRecordings (localStorage (saveRecording exampleEnv 3 (ondataavailable [7] recordingBroadcaster))) =
     [recordingObject exampleEnv ''ABC123'' 3]"
proof -
  have c: "recordedChunksRef (ondataavailable [7] recordingBroadcaster) = [[7]]"
    by code_simp
  have n: "recordedChunksRef (ondataavailable [7] recordingBroadcaster) \<noteq> []"
    using c by simp
  have s: "storedRecordings (localStorage (ondataavailable [7] recordingBroadcaster)) = []"
    by code_simp
  have i: "streamId_prop (ondataavailable [7] recordingBroadcaster) = ''ABC123''"
    by code_simp
  have r: "recordedChunksRef recordingBroadcaster = []" by code_simp
  show ?thesis
    using saveRecording_appends_one[OF n, of exampleEnv 3] s i r by simp
qed

lemma gallery_blind_to_saveRecording:
  "savedVideos (mountGallery (localStorage (saveRecording env rd s))) =
   savedVideos (mountGallery (localStorage s))"
  by (simp add: mountGallery_def loadSavedVideos_def initialGallery_def storedVideos_def
      saveRecording_savedVideos)

lemma recordingObject_fields:
  "map fst (recordingObject env sid rd) = [''id'', ''streamId'', ''filename'', ''date'', ''duration'', ''url'']"
  by (simp add: recordingObject_def)

text \<open>
  Claim C1 does not hold of the code: the record that \<open>saveRecording\<close> writes goes under
  the key \<open>streamRecordings\<close>, with the fields \<open>id\<close> (a number), \<open>streamId\<close>, \<open>filename\<close>,
  \<open>date\<close>, \<open>duration\<close>, \<open>url\<close>, and the gallery loads the key \<open>savedVideos\<close>. After a
  recording is saved over an empty store, the gallery that mounts lists nothing.
\<close>

theorem saved_recording_not_in_gallery:
  "storedRecordings (localStorage (saveRecording exampleEnv 3 (ondataavailable [7] recordingBroadcaster))) =
     [[(''id'', JNumber 1714651200000), (''streamId'', JString ''ABC123''),
       (''filename'', JString ''stream-ABC123-2024-05-02T12-00-00-000Z.webm''),
       (''date'', JString ''2024-05-02T12:00:00.001Z''), (''duration'', JNumber 3),
       (''url'', JString ''blob:1'')]] \<and>
   savedVideos (mountGallery (localStorage (saveRecording exampleEnv 3 (ondataavailable [7] recordingBroadcaster)))) = []"
  by code_simp

section \<open>Recording runs\<close>

subsection \<open>Events\<close>

lemma keptChunks_append: "keptChunks (xs @ ys) = keptChunks xs @ keptChunks ys"
  by (simp add: keptChunks_def)

lemma handle_frame:
  "mediaRecorderRef (handle ev s) = mediaRecorderRef s \<and>
   localStorage (handle ev s) = localStorage s \<and>
   downloads (handle ev s) = downloads s \<and>
   streamId_prop (handle ev s) = streamId_prop s \<and>
   streamRef (handle ev s) = streamRef s"
  by (cases ev) (simp_all add: durationTick_def ondataavailable_def)

lemma handle_chunks:
  "mediaRecorderRef s \<noteq> None \<Longrightarrow>
   recordedChunksRef (handle ev s) = recordedChunksRef s @ keptChunks (chunksOf [ev])"
  by (cases ev) (auto simp: durationTick_def ondataavailable_def keptChunks_def)

lemma fold_handle_frame:
  "mediaRecorderRef (fold handle evs s) = mediaRecorderRef s \<and>
   localStorage (fold handle evs s) = localStorage s \<and>
   downloads (fold handle evs s) = downloads s \<and>
   streamId_prop (fold handle evs s) = streamId_prop s \<and>
   streamRef (fold handle evs s) = streamRef s"
  by (induction evs arbitrary: s) (simp_all add: handle_frame)

lemma chunksOf_Cons: "chunksOf (ev # evs) = chunksOf [ev] @ chunksOf evs"
  by (cases ev) simp_all

lemma fold_handle_chunks:
  "mediaRecorderRef s \<noteq> None \<Longrightarrow>
   recordedChunksRef (fold handle evs s) = recordedChunksRef s @ keptChunks (chunksOf evs)"
proof (induction evs arbitrary: s)
  case Nil
  show ?case by (simp add: keptChunks_def)
next
  case (Cons ev evs)
  have "mediaRecorderRef (handle ev s) \<noteq> None"
    using Cons.prems by (simp add: handle_frame)
  then have "recordedChunksRef (fold handle evs (handle ev s)) =
             recordedChunksRef (handle ev s) @ keptChunks (chunksOf evs)"
    by (rule Cons.IH)
  then show ?case
    using handle_chunks[OF Cons.prems, of ev] chunksOf_Cons[of ev evs]
    by (simp add: keptChunks_append)
qed

subsection \<open>From start to stop\<close>

lemma stopStreaming_frame:
  assumes "stopStreaming s = Inr s'"
  shows "recordedChunksRef s' = recordedChunksRef s \<and> localStorage s' = localStorage s \<and>
         downloads s' = downloads s \<and> streamId_prop s' = streamId_prop s \<and>
         map_option onstop_recordingDuration (mediaRecorderRef s') =
         map_option onstop_recordingDuration (mediaRecorderRef s)"
  using assms
  by (auto simp: stopStreaming_def stopRecorder_def mr_stop_def stopTracks_def
      clearRecordingInterval_def split: option.splits if_splits sum.splits)

lemma completeRun_Started:
  assumes "streamRef s = Some stream"
  shows "\<exists>s3. completeRun Started evs final env s =
              Inr (saveRecording env (recordingDuration s) (ondataavailable final s3)) \<and>
            recordedChunksRef s3 = keptChunks (chunksOf evs) \<and>
            localStorage s3 = localStorage s \<and> downloads s3 = downloads s \<and>
            streamId_prop s3 = streamId_prop s"
proof -
  obtain s1 where s1: "startStreaming Started s = Inr s1"
    and m1: "mediaRecorderRef s1 = Some \<lparr>state_r = Recording, onstop_recordingDuration = recordingDuration s\<rparr>"
    and c1: "recordedChunksRef s1 = []"
    and f1: "localStorage s1 = localStorage s" "downloads s1 = downloads s"
            "streamId_prop s1 = streamId_prop s"
    using startStreaming_Started[OF assms] by simp
  define s2 where "s2 = fold handle evs s1"
  have m2: "mediaRecorderRef s2 = Some \<lparr>state_r = Recording, onstop_recordingDuration = recordingDuration s\<rparr>"
    using fold_handle_frame[of evs s1] m1 by (simp add: s2_def)
  have c2: "recordedChunksRef s2 = keptChunks (chunksOf evs)"
    using fold_handle_chunks[of s1 evs] m1 c1 by (simp add: s2_def)
  have f2: "localStorage s2 = localStorage s" "downloads s2 = downloads s"
           "streamId_prop s2 = streamId_prop s"
    using fold_handle_frame[of evs s1] f1 by (simp_all add: s2_def)
  have a2: "recorderActive s2" using m2 by (simp add: recorderActive_def)
  obtain s3 where s3: "stopStreaming s2 = Inr s3"
    using stopStreaming_Inr[of s2] by (cases "stopStreaming s2") auto
  have fr: "recordedChunksRef s3 = recordedChunksRef s2" "localStorage s3 = localStorage s2"
    "downloads s3 = downloads s2" "streamId_prop s3 = streamId_prop s2"
    "map_option onstop_recordingDuration (mediaRecorderRef s3) =
     map_option onstop_recordingDuration (mediaRecorderRef s2)"
    using stopStreaming_frame[OF s3] by simp_all
  then obtain r3 where m3: "mediaRecorderRef s3 = Some r3"
    and d3: "onstop_recordingDuration r3 = recordingDuration s"
    using m2 by auto
  have "mediaRecorderRef (ondataavailable final s3) = Some r3"
    using m3 by (simp add: ondataavailable_def)
  then have "onstop env (ondataavailable final s3) =
        saveRecording env (recordingDuration s) (ondataavailable final s3)"
    using d3 by (simp add: onstop_def)
  then have "completeRun Started evs final env s =
        Inr (saveRecording env (recordingDuration s) (ondataavailable final s3))"
    using s1 s3 a2 by (simp add: completeRun_def s2_def[symmetric])
  then show ?thesis using fr c2 f2 by auto
qed

lemma ondataavailable_chunks:
  "recordedChunksRef (ondataavailable final s) = recordedChunksRef s @ keptChunks [final]"
  by (simp add: ondataavailable_def keptChunks_def)

lemma ondataavailable_frame:
  "localStorage (ondataavailable final s) = localStorage s \<and>
   downloads (ondataavailable final s) = downloads s \<and>
   streamId_prop (ondataavailable final s) = streamId_prop s"
  by (simp add: ondataavailable_def)

lemma completeRun_saved:
  assumes "streamRef s = Some stream"
  shows "\<exists>s4. completeRun Started evs final env s = Inr (saveRecording env (recordingDuration s) s4) \<and>
            recordedChunksRef s4 = keptChunks (chunksOf evs @ [final]) \<and>
            localStorage s4 = localStorage s \<and> downloads s4 = downloads s \<and>
            streamId_prop s4 = streamId_prop s"
proof -
  obtain s3 where r: "completeRun Started evs final env s =
              Inr (saveRecording env (recordingDuration s) (ondataavailable final s3))"
    and c: "recordedChunksRef s3 = keptChunks (chunksOf evs)"
    and f: "localStorage s3 = localStorage s" "downloads s3 = downloads s"
           "streamId_prop s3 = streamId_prop s"
    using completeRun_Started[OF assms] by blast
  have "recordedChunksRef (ondataavailable final s3) = keptChunks (chunksOf evs @ [final])"
    by (simp add: ondataavailable_chunks c keptChunks_append)
  then show ?thesis using r f ondataavailable_frame[of final s3] by metis
qed
lemma ready_stream: "streamRef readyBroadcaster = Some exampleTracks"
  by (simp add: readyBroadcaster_def startCamera_def)

lemma ready_fields:
  "downloads readyBroadcaster = [] \<and> localStorage readyBroadcaster = emptyStore \<and>
   streamId_prop readyBroadcaster = ''ABC123'' \<and> recordingDuration readyBroadcaster = 0"
  by (simp add: readyBroadcaster_def startCamera_def initialBroadcaster_def)

text \<open>
  Claim C3, as the specification states it, fails: a run that is stopped with no chunk
  collected (one timer tick, one empty chunk, an empty final chunk) stores no record and
  hands over no file.
\<close>

theorem zero_chunks_entry_counterexample:
  "\<not> isl (completeRun Started [IntervalTick 1, DataAvailable []] [] exampleEnv readyBroadcaster) \<and>
   storedRecordings (localStorage (projr (completeRun Started [IntervalTick 1, DataAvailable []] [] exampleEnv readyBroadcaster))) = [] \<and>
   persistedDurations (projr (completeRun Started [IntervalTick 1, DataAvailable []] [] exampleEnv readyBroadcaster)) \<noteq> [Some (JNumber 0)] \<and>
   downloads (projr (completeRun Started [IntervalTick 1, DataAvailable []] [] exampleEnv readyBroadcaster)) = []"
  by code_simp

text \<open>
  Claim C3, amended: a run that is stopped with no non-empty chunk collected returns
  normally and produces nothing: the store and the downloads are as they were before the
  run.
\<close>

theorem run_without_chunks:
  assumes "streamRef s = Some stream" and "keptChunks (chunksOf evs @ [final]) = []"
  shows "\<not> isl (completeRun Started evs final env s) \<and>
         localStorage (projr (completeRun Started evs final env s)) = localStorage s \<and>
         downloads (projr (completeRun Started evs final env s)) = downloads s"
proof -
  obtain s4 where r: "completeRun Started evs final env s = Inr (saveRecording env (recordingDuration s) s4)"
    and c: "recordedChunksRef s4 = keptChunks (chunksOf evs @ [final])"
    and f: "localStorage s4 = localStorage s" "downloads s4 = downloads s"
    using completeRun_saved[OF assms(1)] by blast
  have "saveRecording env (recordingDuration s) s4 = s4"
    using c assms(2) by (simp add: saveRecording_empty)
  then show ?thesis using r f by simp
qed
theorem run_without_chunks_witness:
  "streamRef readyBroadcaster = Some exampleTracks \<and>
   keptChunks (chunksOf [IntervalTick 1, DataAvailable []] @ [[]]) = [] \<and>
   localStorage (projr (completeRun Started [IntervalTick 1, DataAvailable []] [] exampleEnv readyBroadcaster)) = emptyStore \<and>
   downloads (projr (completeRun Started [IntervalTick 1, DataAvailable []] [] exampleEnv readyBroadcaster)) = []"
proof -
  have k: "keptChunks (chunksOf [IntervalTick 1, DataAvailable []] @ [[]]) = []"
    by (simp add: keptChunks_def blobSize_def)
  show ?thesis
    using run_without_chunks[OF ready_stream k, of exampleEnv] ready_stream k ready_fields
    by simp
qed

lemma persistedDurations_saveRecording:
  "recordedChunksRef s \<noteq> [] \<Longrightarrow>
   persistedDurations (saveRecording env rd s) = persistedDurations s @ [Some (JNumber rd)]"
  by (simp add: persistedDurations_def saveRecording_store recordingObject_def)

lemma handle_timers: "timers (handle ev s) = timers s"
  by (cases ev) (simp_all add: durationTick_def ondataavailable_def)

lemma fold_handle_timers: "timers (fold handle evs s) = timers s"
  by (induction evs arbitrary: s) (simp_all add: handle_timers)

lemma fold_handle_counter:
  "recordingDuration (fold handle evs s) =
   recordingDuration s + int (length (filter (\<lambda>t. t \<in> set (timers s)) (ticksOf evs)))"
proof (induction evs arbitrary: s)
  case Nil
  show ?case by simp
next
  case (Cons ev evs)
  show ?case
    using Cons.IH[of "handle ev s"] handle_timers[of ev s]
    by (cases ev) (simp_all add: durationTick_def ondataavailable_def)
qed

lemma stopStreaming_counter:
  "stopStreaming s = Inr s' \<Longrightarrow> recordingDuration s' = recordingDuration s"
  by (auto simp: stopStreaming_def stopRecorder_def mr_stop_def stopTracks_def
      clearRecordingInterval_def split: option.splits if_splits sum.splits)

lemma saveRecording_counter: "recordingDuration (saveRecording env rd s) = recordingDuration s"
  by (simp add: saveRecording_def Let_def)

text \<open>
  What a run leaves, in general: the counter shown on the screen holds the number of ticks
  of the running timers, the artifact is made of the non-empty chunks in their order, and
  the duration stored with it is \<open>recordingDuration\<close> as it was when the run was started.
\<close>

lemma completeRun_counter:
  assumes "streamRef s = Some stream"
  shows "recordingDuration (projr (completeRun Started evs final env s)) =
         int (length (filter (\<lambda>t. t \<in> set (timers s @ [nextTimer s])) (ticksOf evs)))"
proof -
  obtain s1 where s1: "startStreaming Started s = Inr s1"
    and t1: "timers s1 = timers s @ [nextTimer s]" "recordingDuration s1 = 0"
    using startStreaming_Started[OF assms] by simp
  define s2 where "s2 = fold handle evs s1"
  have c2: "recordingDuration s2 =
      int (length (filter (\<lambda>t. t \<in> set (timers s @ [nextTimer s])) (ticksOf evs)))"
    using fold_handle_counter[of evs s1] t1 by (simp add: s2_def)
  obtain s3 where s3: "stopStreaming s2 = Inr s3"
    using stopStreaming_Inr[of s2] by (cases "stopStreaming s2") auto
  have c3: "recordingDuration s3 = recordingDuration s2"
    using stopStreaming_counter[OF s3] .
  have "recordingDuration (projr (completeRun Started evs final env s)) = recordingDuration s3"
    using s1 s3
    by (simp add: completeRun_def s2_def[symmetric] onstop_def saveRecording_counter
        ondataavailable_def split: option.splits)
  then show ?thesis using c2 c3 by simp
qed

lemma completeRun_stores_start_duration:
  assumes "streamRef s = Some stream" and "keptChunks (chunksOf evs @ [final]) \<noteq> []"
  shows "persistedDurations (projr (completeRun Started evs final env s)) =
           persistedDurations s @ [Some (JNumber (recordingDuration s))] \<and>
         downloads (projr (completeRun Started evs final env s)) =
           downloads s @ [(recordingFilename (streamId_prop s) (isoFirst env),
                           newBlob (keptChunks (chunksOf evs @ [final])))]"
proof -
  obtain s4 where r: "completeRun Started evs final env s = Inr (saveRecording env (recordingDuration s) s4)"
    and c: "recordedChunksRef s4 = keptChunks (chunksOf evs @ [final])"
    and f: "localStorage s4 = localStorage s" "downloads s4 = downloads s"
           "streamId_prop s4 = streamId_prop s"
    using completeRun_saved[OF assms(1)] by blast
  have n: "recordedChunksRef s4 \<noteq> []" using c assms(2) by simp
  have "persistedDurations s4 = persistedDurations s"
    using f by (simp add: persistedDurations_def)
  then show ?thesis
    using r persistedDurations_saveRecording[OF n] saveRecording_downloads[OF n] c f by simp
qed

text \<open>
  Claim C2 does not hold of the code. In the first run after the mount, with three chunks
  and three timer ticks and nothing left to deliver on stopping, the artifact has the
  three chunks in their order and the counter on the screen stands at 3, but the duration
  stored with the record is 0: the handler \<open>onstop\<close> calls the \<open>saveRecording\<close> of the
  render in which the run was started, where \<open>recordingDuration\<close> is still 0.
\<close>

theorem stored_duration_is_stale:
  "recordedChunksRef (projr (completeRun Started threeSeconds [] exampleEnv readyBroadcaster)) = [[7], [8], [9]] \<and>
   downloads (projr (completeRun Started threeSeconds [] exampleEnv readyBroadcaster)) =
     [(''stream-ABC123-2024-05-02T12-00-00-000Z.webm'', [7, 8, 9])] \<and>
   recordingDuration (projr (completeRun Started threeSeconds [] exampleEnv readyBroadcaster)) = 3 \<and>
   persistedDurations (projr (completeRun Started threeSeconds [] exampleEnv readyBroadcaster)) =
     [Some (JNumber 0)]"
  by code_simp

end
